theory Spec2Isabelle
  imports Complex_Main
begin

section \<open>Data model\<close>

text \<open>
  A pandas float cell is a real number or NaN. NaN is \<open>None\<close>; a finite float is the
  real number it denotes (rounding and the infinities are not modelled). A row of a
  DataFrame keeps its two string columns and maps every other column name to its cell;
  a column that is absent reads as NaN, which is what \<open>pd.isna(row.get(c))\<close> sees.
  A DataFrame is the list of its rows in index order (the default RangeIndex).
\<close>

type_synonym pyfloat = "real option"

record row =
  user_id :: string
  date :: string
  cells :: "string \<Rightarrow> pyfloat"

type_synonym dataframe = "row list"

datatype error = ValueError | OverflowError

definition METRICS :: "string list" where
  "METRICS = [''sleep_hours'', ''resting_hr'', ''hrv'', ''steps'', ''calories'', ''weight'']"

definition isna :: "pyfloat \<Rightarrow> bool" where
  "isna v = (v = None)"

definition notna :: "pyfloat \<Rightarrow> bool" where
  "notna v = (v \<noteq> None)"

text \<open>Float arithmetic: NaN in either operand gives NaN.\<close>

definition fsub :: "pyfloat \<Rightarrow> pyfloat \<Rightarrow> pyfloat" where
  "fsub a b = (case a of None \<Rightarrow> None | Some x \<Rightarrow> (case b of None \<Rightarrow> None | Some y \<Rightarrow> Some (x - y)))"

definition fadd :: "pyfloat \<Rightarrow> pyfloat \<Rightarrow> pyfloat" where
  "fadd a b = (case a of None \<Rightarrow> None | Some x \<Rightarrow> (case b of None \<Rightarrow> None | Some y \<Rightarrow> Some (x + y)))"

definition fmul :: "pyfloat \<Rightarrow> pyfloat \<Rightarrow> pyfloat" where
  "fmul a b = (case a of None \<Rightarrow> None | Some x \<Rightarrow> (case b of None \<Rightarrow> None | Some y \<Rightarrow> Some (x * y)))"

definition fdiv :: "pyfloat \<Rightarrow> pyfloat \<Rightarrow> pyfloat" where
  "fdiv a b = (case a of None \<Rightarrow> None | Some x \<Rightarrow> (case b of None \<Rightarrow> None | Some y \<Rightarrow> Some (x / y)))"

definition fabs :: "pyfloat \<Rightarrow> pyfloat" where
  "fabs a = map_option abs a"

text \<open>Every comparison with NaN is false.\<close>

definition flt :: "pyfloat \<Rightarrow> pyfloat \<Rightarrow> bool" where
  "flt a b = (case a of None \<Rightarrow> False | Some x \<Rightarrow> (case b of None \<Rightarrow> False | Some y \<Rightarrow> x < y))"

text \<open>
  Python's built-in \<open>min(a, b)\<close> keeps \<open>a\<close> unless \<open>b < a\<close>, and \<open>max(a, b)\<close> keeps
  \<open>a\<close> unless \<open>b > a\<close>; with a NaN operand the comparison is false and the first
  argument is returned.
\<close>

definition py_min :: "pyfloat \<Rightarrow> pyfloat \<Rightarrow> pyfloat" where
  "py_min a b = (if flt b a then b else a)"

definition py_max :: "pyfloat \<Rightarrow> pyfloat \<Rightarrow> pyfloat" where
  "py_max a b = (if flt a b then b else a)"

text \<open>\<open>df[m]\<close>, \<open>Series.dropna()\<close> and writing a whole column \<open>out[name] = values\<close>.\<close>

definition column :: "dataframe \<Rightarrow> string \<Rightarrow> pyfloat list" where
  "column df m = map (\<lambda>r. cells r m) df"

definition dropna :: "pyfloat list \<Rightarrow> real list" where
  "dropna xs = map the (filter (\<lambda>v. v \<noteq> None) xs)"

definition set_column :: "dataframe \<Rightarrow> string \<Rightarrow> pyfloat list \<Rightarrow> dataframe" where
  "set_column out name vals = map (\<lambda>(r, v). r\<lparr>cells := (cells r)(name := v)\<rparr>) (zip out vals)"

section \<open>Robust baseline (normalization.py, model.py)\<close>

text \<open>
  The median of the values present: the middle element of the sorted values, or the
  mean of the two middle ones; NaN when there is none (\<open>Series.median()\<close> skips NaN).
\<close>

definition median_of :: "real list \<Rightarrow> pyfloat" where
  "median_of xs =
     (let s = sort xs; n = length s
      in if n = 0 then None
         else if odd n then Some (s ! (n div 2))
         else Some ((s ! (n div 2 - 1) + s ! (n div 2)) / 2))"

definition series_median :: "pyfloat list \<Rightarrow> pyfloat" where
  "series_median series = median_of (dropna series)"

text \<open>\<open>np.median\<close> does not skip NaN: one NaN in the array makes the result NaN.\<close>

definition np_median :: "pyfloat list \<Rightarrow> pyfloat" where
  "np_median arr = (if None \<in> set arr then None else median_of (map the arr))"

text \<open>
  \<open>_mad(series)\<close>: \<open>mad if mad > 1e-6 else 1e-6\<close>. When the median of the deviations is
  NaN the comparison is false and the epsilon is returned.
\<close>

definition mad :: "pyfloat list \<Rightarrow> real" where
  "mad series =
     (let median = series_median series;
          m = np_median (map (\<lambda>x. fabs (fsub x median)) series)
      in if flt (Some 0.000001) m then the m else 0.000001)"

text \<open>
  \<open>Series.rolling(window, min_periods)\<close>: the window of index \<open>i\<close> holds the rows
  \<open>i - window + 1 .. i\<close> that exist. \<open>.median()\<close> is the median of the values present in
  the window when at least \<open>min_periods\<close> are present, else NaN. \<open>.apply(_mad)\<close> under
  the same condition calls \<open>_mad\<close> on the whole window slice, NaN cells included.
  \<open>.shift(1)\<close> moves every value one row down and puts NaN in the first row.
\<close>

definition rolling_windows :: "nat \<Rightarrow> 'a list \<Rightarrow> 'a list list" where
  "rolling_windows window xs =
     map (\<lambda>i. drop (Suc i - window) (take (Suc i) xs)) [0..<length xs]"

definition rolling_median :: "nat \<Rightarrow> nat \<Rightarrow> pyfloat list \<Rightarrow> pyfloat list" where
  "rolling_median window min_periods xs =
     map (\<lambda>w. if min_periods \<le> length (dropna w) then median_of (dropna w) else None)
       (rolling_windows window xs)"

definition rolling_apply_mad :: "nat \<Rightarrow> nat \<Rightarrow> pyfloat list \<Rightarrow> pyfloat list" where
  "rolling_apply_mad window min_periods xs =
     map (\<lambda>w. if min_periods \<le> length (dropna w) then Some (mad w) else None)
       (rolling_windows window xs)"

definition shift1 :: "pyfloat list \<Rightarrow> pyfloat list" where
  "shift1 xs = take (length xs) (None # xs)"

text \<open>
  The body of the loop over the metric columns of \<open>build_robust_baseline\<close>: both new
  columns are computed from \<open>out[m]\<close> and written into \<open>out\<close>.
\<close>

definition baseline_step :: "nat \<Rightarrow> nat \<Rightarrow> string \<Rightarrow> dataframe \<Rightarrow> dataframe" where
  "baseline_step window min_periods m out =
     (let out1 = set_column out (m @ ''_median'')
                   (shift1 (rolling_median window min_periods (column out m)))
      in set_column out1 (m @ ''_mad'')
           (shift1 (rolling_apply_mad window min_periods (column out1 m))))"

text \<open>
  \<open>build_robust_baseline\<close>, with the list of metric columns as an argument: it is
  \<open>METRICS\<close> in model.py, and the frame's columns other than \<open>date\<close> and \<open>user_id\<close> in
  normalization.py. pandas refuses a negative window and a window smaller than
  \<open>min_periods = max(5, window // 2)\<close> with a ValueError.
\<close>

definition build_robust_baseline :: "string list \<Rightarrow> dataframe \<Rightarrow> int \<Rightarrow> error + dataframe" where
  "build_robust_baseline metric_cols df window =
     (let min_periods = max 5 (window div 2)
      in if window < 0 \<or> window < min_periods then Inl ValueError
         else Inr (fold (baseline_step (nat window) (nat min_periods)) metric_cols df))"

section \<open>Trust scores (model.py, trust\_engine.py)\<close>

record trust_entry =
  metric :: string
  entry_date :: string
  score :: pyfloat
  drivers :: "string list"

text \<open>
  \<open>df.at[idx, name] = v\<close> for a row that exists (the only use the code makes of it).
\<close>

definition at_set :: "dataframe \<Rightarrow> nat \<Rightarrow> string \<Rightarrow> pyfloat \<Rightarrow> dataframe" where
  "at_set df idx name v = df[idx := (df ! idx)\<lparr>cells := (cells (df ! idx))(name := v)\<rparr>]"

text \<open>
  The driver labels. The source spells the second one with U+2011 (non-breaking
  hyphen) between \<open>cross\<close> and \<open>signal\<close>, not with an ASCII hyphen; strings are
  UTF-8 bytes here, so the character is the three bytes E2 80 91.
\<close>

definition distribution_shift :: string where
  "distribution_shift = ''distribution shift''"

definition cross_signal_deviation :: string where
  "cross_signal_deviation = ''cross'' @ [CHR 0xE2, CHR 0x80, CHR 0x91] @ ''signal deviation''"

text \<open>
  The dictionary \<open>predictor_weights\<close> is computed by \<open>df[METRICS].corr()\<close> and
  \<open>np.linalg.solve\<close>, with an all-zero fallback when the solver raises. These library
  numerics are not modelled: the dictionary is an argument, \<open>predictor_weights m other\<close>
  standing for \<open>predictor_weights[m][other]\<close>, and a weight may be NaN (the correlation of a
  constant or too short column is NaN, and the solver passes NaN on).
\<close>

type_synonym weights = "string \<Rightarrow> string \<Rightarrow> pyfloat"

text \<open>The distribution-shift factor of a value that is present.\<close>

definition dist_score :: "row \<Rightarrow> string \<Rightarrow> pyfloat" where
  "dist_score row m =
     (let val = cells row m;
          median = cells row (m @ ''_median'');
          mad' = cells row (m @ ''_mad'');
          z = (if isna median \<or> isna mad' then Some 0
               else fdiv (fsub val median) (fmul (Some 1.4826) mad'))
      in py_max (Some 0) (fsub (Some 1) (py_min (fdiv (fabs z) (Some 3)) (Some 1))))"

text \<open>
  The cross-signal factor: the prediction is Python's \<open>sum\<close> (from 0, left to right) of
  weight times same-day value of the other metrics, a missing one counting as 0.
\<close>

definition predicted_value :: "weights \<Rightarrow> row \<Rightarrow> string \<Rightarrow> pyfloat" where
  "predicted_value predictor_weights row m =
     (let others = filter (\<lambda>other. other \<noteq> m) METRICS;
          preds = map (\<lambda>other. if notna (cells row other) then cells row other else Some 0) others
      in foldl fadd (Some 0)
           (map (\<lambda>(other, p). fmul (predictor_weights m other) p) (zip others preds)))"

definition res_score :: "weights \<Rightarrow> dataframe \<Rightarrow> row \<Rightarrow> string \<Rightarrow> pyfloat" where
  "res_score predictor_weights df row m =
     (let val = cells row m;
          predicted = predicted_value predictor_weights row m;
          residual = fabs (fsub val predicted);
          overall_mad = mad (map Some (dropna (column df m)))
      in py_max (Some 0)
           (fsub (Some 1) (py_min (fdiv residual (fmul (Some 3) (Some overall_mad))) (Some 1))))"

text \<open>The body of the inner loop: score and drivers of one metric on one day.\<close>

definition trust_cell :: "weights \<Rightarrow> dataframe \<Rightarrow> row \<Rightarrow> string \<Rightarrow> pyfloat \<times> string list" where
  "trust_cell predictor_weights df row m =
     (let val = cells row m
      in if isna val then (Some 0, [''missing''])
         else
           (let drivers = [];
                d = dist_score row m;
                drivers = (if flt d (Some 0.6) then drivers @ [distribution_shift] else drivers);
                r = res_score predictor_weights df row m;
                drivers = (if flt r (Some 0.6) then drivers @ [cross_signal_deviation] else drivers)
            in (fmul d r, drivers)))"

text \<open>
  \<open>compute_trust_scores\<close>: \<open>iterrows\<close> yields the rows of the baseline frame as they
  were when the iteration began; each step writes the trust column of the frame and
  appends one entry to the flat list.
\<close>

definition trust_step :: "weights \<Rightarrow> dataframe \<Rightarrow> dataframe \<Rightarrow> nat \<Rightarrow> string
    \<Rightarrow> dataframe \<times> trust_entry list \<Rightarrow> dataframe \<times> trust_entry list" where
  "trust_step predictor_weights df df_baseline idx m st =
     (let (out, trust_entries) = st;
          row = df_baseline ! idx;
          (score', drivers') = trust_cell predictor_weights df row m
      in (at_set out idx (''trust_'' @ m) score',
          trust_entries @ [\<lparr>metric = m, entry_date = date row, score = score', drivers = drivers'\<rparr>]))"

definition compute_trust_scores :: "weights \<Rightarrow> dataframe \<Rightarrow> error + dataframe \<times> trust_entry list" where
  "compute_trust_scores predictor_weights df =
     (case build_robust_baseline METRICS df 14 of
        Inl e \<Rightarrow> Inl e
      | Inr df_baseline \<Rightarrow>
          Inr (fold (\<lambda>idx st. fold (trust_step predictor_weights df df_baseline idx) METRICS st)
                 [0..<length df_baseline] (df_baseline, [])))"

section \<open>Anomaly detection (model.py, anomaly\_detector.py)\<close>

record driver =
  d_metric :: string
  d_value :: real
  z_score :: real
  direction :: string

record anomaly_result =
  a_user_id :: string
  a_date :: string
  anomaly_score :: real
  is_anomaly :: bool
  a_drivers :: "driver list"
  narrative :: string

text \<open>
  The body of the loop over the metrics of one day: \<open>continue\<close> leaves both lists as
  they are; otherwise \<open>abs(z)\<close> is appended, and a driver when \<open>abs(z) > 2.0\<close>.
\<close>

definition anomaly_step :: "row \<Rightarrow> string \<Rightarrow> driver list \<times> real list \<Rightarrow> driver list \<times> real list" where
  "anomaly_step row m st =
     (let (drivers', z_scores) = st;
          val = cells row m;
          med = cells row (m @ ''_median'');
          mad' = cells row (m @ ''_mad'')
      in if isna val \<or> isna med \<or> isna mad' then (drivers', z_scores)
         else
           (let z = (the val - the med) / (1.4826 * the mad')
            in (if \<bar>z\<bar> > 2
                then drivers' @ [\<lparr>d_metric = m, d_value = the val, z_score = z,
                                  direction = (if z > 0 then ''high'' else ''low'')\<rparr>]
                else drivers',
                z_scores @ [\<bar>z\<bar>])))"

definition np_mean :: "real list \<Rightarrow> real" where
  "np_mean xs = sum_list xs / real (length xs)"

definition np_max :: "real list \<Rightarrow> real" where
  "np_max xs = fold max (tl xs) (hd xs)"

definition str_join :: "string \<Rightarrow> string list \<Rightarrow> string" where
  "str_join sep parts = (case parts of [] \<Rightarrow> [] | p # ps \<Rightarrow> p @ concat (map (\<lambda>q. sep @ q) ps))"

text \<open>
  The narrative; \<open>fmt n x\<close> stands for Python's \<open>format(x, '.nf')\<close>, which is not
  modelled. \<open>sorted(..., reverse=True)\<close> is stable, as \<open>sort_key\<close> is.
\<close>

definition render_narrative :: "(nat \<Rightarrow> real \<Rightarrow> string) \<Rightarrow> string \<Rightarrow> real \<Rightarrow> driver list \<Rightarrow> string" where
  "render_narrative fmt date' score' drivers' =
     (if score' < 1 then date' @ '': Within normal variation.''
      else if drivers' = [] then
        date' @ '': Elevated deviation detected but no specific metric stands out.''
      else
        (let top = take 2 (sort_key (\<lambda>d. - \<bar>z_score d\<bar>) drivers');
             parts = map (\<lambda>d. map (\<lambda>c. if c = CHR ''_'' then CHR '' '' else c) (d_metric d)
                              @ '' is '' @ (if direction d = ''high'' then ''above'' else ''below'')
                              @ '' baseline (z='' @ fmt 1 (z_score d) @ '')'') top
         in date' @ '': Anomaly (score='' @ fmt 2 score' @ ''). '' @ str_join ''; '' parts @ ''.''))"

definition anomaly_row :: "(nat \<Rightarrow> real \<Rightarrow> string) \<Rightarrow> row \<Rightarrow> anomaly_result" where
  "anomaly_row fmt row =
     (let (drivers', z_scores) = fold (anomaly_step row) METRICS ([], []);
          score' = (if z_scores = [] then 0 else np_mean z_scores + 0.25 * np_max z_scores)
      in \<lparr>a_user_id = user_id row, a_date = date row, anomaly_score = score',
          is_anomaly = (score' \<ge> 1.5), a_drivers = drivers',
          narrative = render_narrative fmt (date row) score' drivers'\<rparr>)"

definition compute_anomalies :: "(nat \<Rightarrow> real \<Rightarrow> string) \<Rightarrow> dataframe \<Rightarrow> error + anomaly_result list" where
  "compute_anomalies fmt df =
     (case build_robust_baseline METRICS df 14 of
        Inl e \<Rightarrow> Inl e
      | Inr df_base \<Rightarrow> Inr (map (anomaly_row fmt) df_base))"

section \<open>Attack simulation (model.py, anomaly\_detector.py)\<close>

text \<open>
  The random source is explicit: three streams of raw draws and the number of draws
  taken so far. \<open>random.random()\<close> is a float in \<open>[0, 1)\<close>, the fractional part of a raw
  draw; \<open>np.random.normal(0, sd)\<close> is \<open>sd\<close> times a raw draw. \<open>random.sample\<close> (and
  \<open>np.random.choice\<close> without replacement) picks \<open>k\<close> distinct elements of the
  population, one raw draw each; every outcome is reached by some stream.
\<close>

record rng =
  int_src :: "nat \<Rightarrow> nat"
  unit_src :: "nat \<Rightarrow> real"
  gauss_src :: "nat \<Rightarrow> real"
  pos :: nat

definition random_random :: "rng \<Rightarrow> real \<times> rng" where
  "random_random g = (frac (unit_src g (pos g)), g\<lparr>pos := Suc (pos g)\<rparr>)"

definition random_normal :: "rng \<Rightarrow> real \<Rightarrow> real \<times> rng" where
  "random_normal g sd = (sd * gauss_src g (pos g), g\<lparr>pos := Suc (pos g)\<rparr>)"

fun random_sample :: "nat list \<Rightarrow> nat \<Rightarrow> rng \<Rightarrow> nat list \<times> rng" where
  "random_sample population 0 g = ([], g)"
| "random_sample population (Suc k) g =
     (let j = int_src g (pos g) mod length population;
          (rest, g') = random_sample (take j population @ drop (Suc j) population) k
                         (g\<lparr>pos := Suc (pos g)\<rparr>)
      in (population ! j # rest, g'))"

text \<open>
  Python's \<open>int(x)\<close> truncates a finite float towards zero and raises OverflowError on
  an infinite one. A double product is infinite when the magnitude of the exact product
  reaches \<open>2^1024 - 2^970\<close>, half a unit in the last place above the largest finite
  double.
\<close>

definition py_int :: "real \<Rightarrow> int" where
  "py_int x = (if 0 \<le> x then \<lfloor>x\<rfloor> else \<lceil>x\<rceil>)"

definition float_overflow :: real where
  "float_overflow = 2 ^ 1024 - 2 ^ 970"

text \<open>
  The function mutates \<open>perturbed\<close>, a copy of \<open>df\<close>, and reads \<open>df\<close>. Frames live in a
  heap, a list indexed by address; \<open>df.copy()\<close> allocates the next address.
\<close>

type_synonym heap = "dataframe list"

text \<open>The body of the loop over the chosen indices; an unknown mode matches no branch.\<close>

definition attack_cell :: "string \<Rightarrow> nat \<Rightarrow> nat \<Rightarrow> string \<Rightarrow> nat \<Rightarrow> heap \<times> rng \<Rightarrow> heap \<times> rng" where
  "attack_cell mode df perturbed m idx st =
     (let (h, g) = st
      in if mode = ''missing'' then (h[perturbed := at_set (h ! perturbed) idx m None], g)
         else if mode = ''delay'' then
           (let src = nat (max 0 (int idx - 3))
            in (h[perturbed := at_set (h ! perturbed) idx m (cells (h ! df ! src) m)], g))
         else if mode = ''spoof'' then
           (let val = cells (h ! df ! idx) m
            in if notna val then
                 (let (u, g') = random_random g
                  in (h[perturbed := at_set (h ! perturbed) idx m (fmul val (Some (1.5 + u)))], g'))
               else (h, g))
         else if mode = ''noise'' then
           (let val = cells (h ! df ! idx) m
            in if notna val then
                 (let (noise, g') = random_normal g (if val \<noteq> Some 0 then 0.1 * \<bar>the val\<bar> else 0.1)
                  in (h[perturbed := at_set (h ! perturbed) idx m (fadd val (Some noise))], g'))
               else (h, g))
         else (h, g))"

text \<open>
  The body of the loop over the metrics. \<open>int(n_rows * fraction)\<close> raises OverflowError
  when the product is infinite, and sampling more indices than there are rows raises
  ValueError; either ends the call.
\<close>

definition attack_metric :: "string \<Rightarrow> real \<Rightarrow> nat \<Rightarrow> nat \<Rightarrow> nat \<Rightarrow> string
    \<Rightarrow> error + heap \<times> rng \<Rightarrow> error + heap \<times> rng" where
  "attack_metric mode fraction n_rows df perturbed m st =
     (case st of
        Inl e \<Rightarrow> Inl e
      | Inr (h, g) \<Rightarrow>
          (if float_overflow \<le> \<bar>real n_rows * fraction\<bar> then Inl OverflowError
           else
             (let n_vals = py_int (real n_rows * fraction)
              in if n_vals > 0 then
                   (if int n_rows < n_vals then Inl ValueError
                    else (let (indices, g') = random_sample [0..<n_rows] (nat n_vals) g
                          in Inr (fold (attack_cell mode df perturbed m) indices (h, g'))))
                 else Inr (h, g))))"

text \<open>
  \<open>simulate_attack h g df mode fraction\<close>: the frame at address \<open>df\<close> of heap \<open>h\<close> is the
  argument; the result is the address of the perturbed copy, the heap and the random
  source after the call.
\<close>

definition simulate_attack :: "heap \<Rightarrow> rng \<Rightarrow> nat \<Rightarrow> string \<Rightarrow> real \<Rightarrow> error + nat \<times> heap \<times> rng" where
  "simulate_attack h g df mode fraction =
     (let perturbed = length h;
          h1 = h @ [h ! df];
          n_rows = length (h ! df)
      in case fold (attack_metric mode fraction n_rows df perturbed) METRICS (Inr (h1, g)) of
           Inl e \<Rightarrow> Inl e
         | Inr (h', g') \<Rightarrow> Inr (perturbed, h', g'))"

section \<open>Federated trust (trust\_engine.py)\<close>

text \<open>
  The arithmetic is over exact reals. In doubles a non-zero mean as small as \<open>1e-21\<close>
  gives an embedding whose squares vanish beside the \<open>1e-8\<close> of the denominator, and
  the score is then exactly 0.5; only bounds that survive this are stated of the score.
\<close>

definition linalg_norm :: "real list \<Rightarrow> real" where
  "linalg_norm vec = sqrt (sum_list (map (\<lambda>x. x\<^sup>2) vec))"

definition np_dot :: "real list \<Rightarrow> real list \<Rightarrow> real" where
  "np_dot a b = sum_list (map (\<lambda>(x, y). x * y) (zip a b))"

definition metric_means :: "string list \<Rightarrow> dataframe \<Rightarrow> real list" where
  "metric_means metrics df =
     map (\<lambda>m. let series = dropna (column df m)
              in if length series = 0 then 0 else sum_list series / real (length series)) metrics"

definition compute_embedding :: "string list \<Rightarrow> dataframe \<Rightarrow> real list" where
  "compute_embedding metrics df =
     (let vec = metric_means metrics df;
          norm' = linalg_norm vec + 0.00000001
      in map (\<lambda>x. x / norm') vec)"

definition compute_federated_trust_score :: "string list \<Rightarrow> dataframe \<Rightarrow> dataframe \<Rightarrow> real" where
  "compute_federated_trust_score metrics user_df global_df =
     (let user_embed = compute_embedding metrics user_df;
          global_embed = compute_embedding metrics global_df;
          dot = np_dot user_embed global_embed;
          denom = linalg_norm user_embed * linalg_norm global_embed + 0.00000001;
          similarity = dot / denom
      in max 0 (min ((similarity + 1) / 2) 1))"

section \<open>Auxiliary notions for the statements\<close>

text \<open>
  The names of the columns that \<open>build_robust_baseline\<close> writes for a list of metric
  columns, and the condition that the metric columns are distinct and none of them is
  itself such a name (so that no baseline column overwrites an input of a later one).
\<close>

definition generated :: "string list \<Rightarrow> string set" where
  "generated ms = (\<lambda>m. m @ ''_median'') ` set ms \<union> (\<lambda>m. m @ ''_mad'') ` set ms"

definition clash_free :: "string list \<Rightarrow> bool" where
  "clash_free ms = (distinct ms \<and> (\<forall>a\<in>set ms. a \<notin> generated ms))"

text \<open>
  The entry that one step of the double loop of \<open>compute_trust_scores\<close> appends.
\<close>

definition trust_entry_of :: "weights \<Rightarrow> dataframe \<Rightarrow> row \<Rightarrow> string \<Rightarrow> trust_entry" where
  "trust_entry_of predictor_weights df row m =
     \<lparr>metric = m, entry_date = date row,
      score = fst (trust_cell predictor_weights df row m),
      drivers = snd (trust_cell predictor_weights df row m)\<rparr>"

text \<open>
  The daily anomaly score as the specification words it: a metric takes part in a
  day when its value, rolling median and rolling MAD are all present; its robust z is
  \<open>(value - median) / (1.4826 * mad)\<close>; the score is the mean of the \<open>|z|\<close> plus a
  quarter of their maximum, and 0 when no metric takes part.
\<close>

definition spec_included :: "row \<Rightarrow> string \<Rightarrow> bool" where
  "spec_included row m = (cells row m \<noteq> None \<and> cells row (m @ ''_median'') \<noteq> None
      \<and> cells row (m @ ''_mad'') \<noteq> None)"

definition spec_robust_z :: "row \<Rightarrow> string \<Rightarrow> real" where
  "spec_robust_z row m =
     (the (cells row m) - the (cells row (m @ ''_median''))) / (1.4826 * the (cells row (m @ ''_mad'')))"

definition spec_daily_score :: "real list \<Rightarrow> real" where
  "spec_daily_score zs = (if zs = [] then 0 else sum_list zs / real (length zs) + 0.25 * Max (set zs))"

text \<open>
  The four mode strings that \<open>attack_cell\<close> has a branch for.
\<close>

definition known_modes :: "string list" where
  "known_modes = [''missing'', ''delay'', ''spoof'', ''noise'']"

text \<open>
  The sum of the squares of a vector, the square of its Euclidean norm.
\<close>

definition sumsq :: "real list \<Rightarrow> real" where
  "sumsq vec = sum_list (map (\<lambda>x. x\<^sup>2) vec)"

section \<open>Example inputs\<close>

text \<open>
  Eight days of one user with only \<open>hrv\<close> recorded, and the same series with the last
  day's value replaced.
\<close>

definition hrv_days :: dataframe where
  "hrv_days = map (\<lambda>(d, v). \<lparr>user_id = ''u1'', date = d, cells = map_of [(''hrv'', v)]\<rparr>)
     [(''2024-01-01'', 1), (''2024-01-02'', 2), (''2024-01-03'', 3), (''2024-01-04'', 4),
      (''2024-01-05'', 5), (''2024-01-06'', 6), (''2024-01-07'', 7), (''2024-01-08'', 9)]"

definition hrv_days_tampered :: dataframe where
  "hrv_days_tampered = at_set hrv_days 7 ''hrv'' (Some 1000)"

text \<open>
  The fallback weights, and a one-day series with only \<open>sleep_hours\<close> recorded.
\<close>

definition zero_weights :: weights where
  "zero_weights = (\<lambda>m other. Some 0)"

definition one_day :: dataframe where
  "one_day = [\<lparr>user_id = ''u1'', date = ''2024-01-01'', cells = map_of [(''sleep_hours'', 10)]\<rparr>]"

text \<open>
  A number formatter for the examples (the narrative is not examined).
\<close>

definition plain_fmt :: "nat \<Rightarrow> real \<Rightarrow> string" where
  "plain_fmt n x = ''?''"

text \<open>
  A random source whose raw draws are all zero.
\<close>

definition rng0 :: rng where
  "rng0 = \<lparr>int_src = (\<lambda>n. 0), unit_src = (\<lambda>n. 0), gauss_src = (\<lambda>n. 0), pos = 0\<rparr>"

text \<open>
  A cohort whose only recorded value is the negation of that of \<open>one_day\<close>.
\<close>

definition one_day_negated :: dataframe where
  "one_day_negated =
     [\<lparr>user_id = ''u2'', date = ''2024-01-01'', cells = map_of [(''sleep_hours'', - 10)]\<rparr>]"

section \<open>Properties of the baseline\<close>

lemma mad_ge_eps: "0.000001 \<le> mad series"
  by (auto simp: mad_def Let_def flt_def split: option.splits)


lemma length_rolling_windows: "length (rolling_windows w xs) = length xs"
  by (simp add: rolling_windows_def)

lemma length_rolling_median: "length (rolling_median w p xs) = length xs"
  by (simp add: rolling_median_def length_rolling_windows)

lemma length_rolling_apply_mad: "length (rolling_apply_mad w p xs) = length xs"
  by (simp add: rolling_apply_mad_def length_rolling_windows)

lemma length_shift1: "length (shift1 xs) = length xs"
  by (simp add: shift1_def)

lemma length_column: "length (column df m) = length df"
  by (simp add: column_def)

lemma length_set_column:
  "length vals = length out \<Longrightarrow> length (set_column out n vals) = length out"
  by (simp add: set_column_def)

lemma column_set_column:
  "length vals = length out \<Longrightarrow>
   column (set_column out n vals) k = (if k = n then vals else column out k)"
  by (induction out vals rule: list_induct2') (auto simp: set_column_def column_def)

lemma dates_set_column:
  "length vals = length out \<Longrightarrow> map date (set_column out n vals) = map date out"
  by (induction out vals rule: list_induct2') (auto simp: set_column_def)

lemma users_set_column:
  "length vals = length out \<Longrightarrow> map user_id (set_column out n vals) = map user_id out"
  by (induction out vals rule: list_induct2') (auto simp: set_column_def)

lemma length_baseline_step: "length (baseline_step w p m out) = length out"
  by (simp add: baseline_step_def Let_def length_set_column length_shift1
      length_rolling_median length_rolling_apply_mad length_column)

lemma column_baseline_step:
  "column (baseline_step w p m out) k =
     (if k = m @ ''_mad'' then shift1 (rolling_apply_mad w p (column out m))
      else if k = m @ ''_median'' then shift1 (rolling_median w p (column out m))
      else column out k)"
  by (simp add: baseline_step_def Let_def column_set_column length_set_column length_shift1
      length_rolling_median length_rolling_apply_mad length_column)

lemma dates_baseline_step: "map date (baseline_step w p m out) = map date out"
  by (simp add: baseline_step_def Let_def dates_set_column length_set_column length_shift1
      length_rolling_median length_rolling_apply_mad length_column)

lemma users_baseline_step: "map user_id (baseline_step w p m out) = map user_id out"
  by (simp add: baseline_step_def Let_def users_set_column length_set_column length_shift1
      length_rolling_median length_rolling_apply_mad length_column)

lemma length_fold_baseline: "length (fold (baseline_step w p) ms df) = length df"
  by (induction ms arbitrary: df) (simp_all add: length_baseline_step)

lemma dates_fold_baseline: "map date (fold (baseline_step w p) ms df) = map date df"
  by (induction ms arbitrary: df) (simp_all add: dates_baseline_step)

lemma users_fold_baseline: "map user_id (fold (baseline_step w p) ms df) = map user_id df"
  by (induction ms arbitrary: df) (simp_all add: users_baseline_step)

lemma column_fold_other:
  "k \<notin> generated ms \<Longrightarrow> column (fold (baseline_step w p) ms df) k = column df k"
  by (induction ms arbitrary: df) (auto simp: generated_def column_baseline_step)

lemma clash_free_Cons: "clash_free (m # ms) \<Longrightarrow> clash_free ms"
  by (auto simp: clash_free_def generated_def)

lemma column_fold_median:
  "clash_free ms \<Longrightarrow> m \<in> set ms \<Longrightarrow>
   column (fold (baseline_step w p) ms df) (m @ ''_median'')
     = shift1 (rolling_median w p (column df m))"
proof (induction ms arbitrary: df)
  case Nil
  then show ?case by simp
next
  case (Cons c cs)
  show ?case
  proof (cases "m = c")
    case True
    have "c \<notin> set cs" using Cons.prems(1) by (simp add: clash_free_def)
    then have "c @ ''_median'' \<notin> generated cs" by (auto simp: generated_def)
    then show ?thesis using True by (simp add: column_fold_other column_baseline_step)
  next
    case False
    then have m: "m \<in> set cs" using Cons.prems(2) by simp
    have "m \<noteq> c @ ''_median''" "m \<noteq> c @ ''_mad''"
      using Cons.prems by (auto simp: clash_free_def generated_def)
    then have "column (baseline_step w p c df) m = column df m"
      by (simp add: column_baseline_step)
    then show ?thesis using Cons.IH [OF clash_free_Cons [OF Cons.prems(1)] m] by simp
  qed
qed

lemma column_fold_mad:
  "clash_free ms \<Longrightarrow> m \<in> set ms \<Longrightarrow>
   column (fold (baseline_step w p) ms df) (m @ ''_mad'')
     = shift1 (rolling_apply_mad w p (column df m))"
proof (induction ms arbitrary: df)
  case Nil
  then show ?case by simp
next
  case (Cons c cs)
  show ?case
  proof (cases "m = c")
    case True
    have "c \<notin> set cs" using Cons.prems(1) by (simp add: clash_free_def)
    then have "c @ ''_mad'' \<notin> generated cs" by (auto simp: generated_def)
    then show ?thesis using True by (simp add: column_fold_other column_baseline_step)
  next
    case False
    then have m: "m \<in> set cs" using Cons.prems(2) by simp
    have "m \<noteq> c @ ''_median''" "m \<noteq> c @ ''_mad''"
      using Cons.prems by (auto simp: clash_free_def generated_def)
    then have "column (baseline_step w p c df) m = column df m"
      by (simp add: column_baseline_step)
    then show ?thesis using Cons.IH [OF clash_free_Cons [OF Cons.prems(1)] m] by simp
  qed
qed

lemma column_fold_metric:
  "clash_free ms \<Longrightarrow> m \<in> set ms \<Longrightarrow> column (fold (baseline_step w p) ms df) m = column df m"
  by (rule column_fold_other) (auto simp: clash_free_def)

lemma clash_free_METRICS: "clash_free METRICS"
  by (simp add: clash_free_def METRICS_def generated_def)

lemma build_robust_baseline_14:
  "build_robust_baseline ms df 14 = Inr (fold (baseline_step 14 7) ms df)"
  by (simp add: build_robust_baseline_def)


lemma build_robust_baseline_ok:
  "5 \<le> window \<Longrightarrow>
   build_robust_baseline ms df window
     = Inr (fold (baseline_step (nat window) (nat (max 5 (window div 2)))) ms df)"
  by (auto simp: build_robust_baseline_def Let_def)

lemma cells_nth_column: "d < length df \<Longrightarrow> cells (df ! d) k = column df k ! d"
  by (simp add: column_def)

lemma nth_rolling_windows:
  "i < length xs \<Longrightarrow> rolling_windows w xs ! i = drop (Suc i - w) (take (Suc i) xs)"
  by (simp add: rolling_windows_def)

lemma nth_shift1: "d < length xs \<Longrightarrow> shift1 xs ! d = (if d = 0 then None else xs ! (d - 1))"
  by (cases d) (simp_all add: shift1_def)

lemma nth_shift1_rolling_median:
  "d < length xs \<Longrightarrow>
   shift1 (rolling_median w p xs) ! d
     = (if d = 0 then None
        else (let win = drop (d - w) (take d xs)
              in if p \<le> length (dropna win) then median_of (dropna win) else None))"
  by (cases d)
     (simp_all add: nth_shift1 length_rolling_median rolling_median_def
        length_rolling_windows nth_rolling_windows)

lemma nth_shift1_rolling_mad:
  "d < length xs \<Longrightarrow>
   shift1 (rolling_apply_mad w p xs) ! d
     = (if d = 0 then None
        else (let win = drop (d - w) (take d xs)
              in if p \<le> length (dropna win) then Some (mad win) else None))"
  by (cases d)
     (simp_all add: nth_shift1 length_rolling_apply_mad rolling_apply_mad_def
        length_rolling_windows nth_rolling_windows)

lemma take_column: "take d (column df m) = column (take d df) m"
  by (simp add: column_def take_map)

text \<open>The baseline cells of a row, read off the input frame.\<close>

lemma baseline_median_cell:
  assumes "clash_free ms" "m \<in> set ms" "d < length df"
  shows "cells (fold (baseline_step w p) ms df ! d) (m @ ''_median'')
     = (if d = 0 then None
        else (let win = drop (d - w) (column (take d df) m)
              in if p \<le> length (dropna win) then median_of (dropna win) else None))"
  using assms
  by (simp add: cells_nth_column length_fold_baseline column_fold_median
      nth_shift1_rolling_median length_column take_column)

lemma baseline_mad_cell:
  assumes "clash_free ms" "m \<in> set ms" "d < length df"
  shows "cells (fold (baseline_step w p) ms df ! d) (m @ ''_mad'')
     = (if d = 0 then None
        else (let win = drop (d - w) (column (take d df) m)
              in if p \<le> length (dropna win) then Some (mad win) else None))"
  using assms
  by (simp add: cells_nth_column length_fold_baseline column_fold_mad
      nth_shift1_rolling_mad length_column take_column)

lemma baseline_metric_cell:
  assumes "clash_free ms" "m \<in> set ms" "d < length df"
  shows "cells (fold (baseline_step w p) ms df ! d) m = cells (df ! d) m"
  using assms
  by (simp add: cells_nth_column length_fold_baseline column_fold_metric)

text \<open>
  C3. The baseline pair that \<open>build_robust_baseline\<close> attaches at row \<open>d\<close> is the same
  for two frames that agree on the rows before \<open>d\<close>, whatever rows \<open>d\<close> and later
  hold: it depends only on rows strictly before \<open>d\<close>. This holds for every accepted
  window and every clash-free list of metric columns, \<open>METRICS\<close> among them.
\<close>

theorem baseline_no_lookahead:
  assumes "5 \<le> window" and "d < length df" and "d < length df'"
    and "take d df' = take d df" and "clash_free metric_cols" and "m \<in> set metric_cols"
  shows "\<exists>out out'. build_robust_baseline metric_cols df window = Inr out
           \<and> build_robust_baseline metric_cols df' window = Inr out'
           \<and> cells (out' ! d) (m @ ''_median'') = cells (out ! d) (m @ ''_median'')
           \<and> cells (out' ! d) (m @ ''_mad'') = cells (out ! d) (m @ ''_mad'')"
  using assms
  by (simp add: build_robust_baseline_ok baseline_median_cell baseline_mad_cell)

text \<open>
  C4. Every MAD value the engine computes is at least \<open>1e-6\<close>: each \<open>{metric}_mad\<close> cell
  of the baseline frame that is present, and the overall-series MAD \<open>_mad(df[m].dropna())\<close>
  that normalises the cross-signal residual.
\<close>

theorem mad_values_floored:
  "(\<exists>out. build_robust_baseline METRICS df 14 = Inr out
       \<and> (\<forall>d<length out. \<forall>m\<in>set METRICS. \<forall>v.
             cells (out ! d) (m @ ''_mad'') = Some v \<longrightarrow> 0.000001 \<le> v))
   \<and> 0.000001 \<le> mad (map Some (dropna (column df m')))"
proof -
  have "0.000001 \<le> v"
    if "d < length df" "m \<in> set METRICS"
      "cells (fold (baseline_step 14 7) METRICS df ! d) (m @ ''_mad'') = Some v" for d m v
    using that mad_ge_eps
    by (auto simp: baseline_mad_cell clash_free_METRICS Let_def split: if_splits)
  moreover have "0.000001 \<le> mad (map Some (dropna (column df m')))"
    by (rule mad_ge_eps)
  ultimately show ?thesis
    by (simp add: build_robust_baseline_14 length_fold_baseline)
qed

lemma hrv_column:
  "column (take 7 hrv_days) ''hrv'' = [Some 1, Some 2, Some 3, Some 4, Some 5, Some 6, Some 7]"
  by (simp add: hrv_days_def column_def)

lemma hrv_window_mad: "mad [Some 1, Some 2, Some 3, Some 4, Some 5, Some 6, Some 7] = 2"
  by (simp add: mad_def series_median_def np_median_def median_of_def dropna_def fabs_def
      fsub_def flt_def Let_def)

lemma hrv_window_median: "median_of [1, 2, 3, 4, 5, 6, 7] = Some 4"
  by (simp add: median_of_def Let_def)


lemma length_hrv_days: "length hrv_days = 8" "length hrv_days_tampered = 8"
  by (simp_all add: hrv_days_def hrv_days_tampered_def at_set_def)

lemma take_hrv_days_tampered: "take 7 hrv_days_tampered = take 7 hrv_days"
  by (simp add: hrv_days_tampered_def at_set_def)

lemma hrv_in_METRICS: "''hrv'' \<in> set METRICS"
  by (simp add: METRICS_def)

lemma hrv_days_baseline:
  "cells (fold (baseline_step 14 7) METRICS hrv_days ! 7) (''hrv'' @ ''_median'') = Some 4"
  "cells (fold (baseline_step 14 7) METRICS hrv_days ! 7) (''hrv'' @ ''_mad'') = Some 2"
  by (simp_all only: baseline_median_cell [OF clash_free_METRICS hrv_in_METRICS]
        baseline_mad_cell [OF clash_free_METRICS hrv_in_METRICS]
        length_hrv_days hrv_column hrv_window_mad hrv_window_median)
     (simp_all add: dropna_def hrv_window_mad hrv_window_median)

theorem mad_values_floored_witness:
  "\<exists>out. build_robust_baseline METRICS hrv_days 14 = Inr out \<and> 7 < length out
      \<and> ''hrv'' \<in> set METRICS \<and> cells (out ! 7) (''hrv'' @ ''_mad'') = Some 2
      \<and> (0.000001::real) \<le> 2"
proof -
  from mad_values_floored [of hrv_days "''hrv''"]
  obtain out where out: "build_robust_baseline METRICS hrv_days 14 = Inr out"
    and floor: "\<forall>d<length out. \<forall>m\<in>set METRICS. \<forall>v.
       cells (out ! d) (m @ ''_mad'') = Some v \<longrightarrow> 0.000001 \<le> v"
    by blast
  have eq: "out = fold (baseline_step 14 7) METRICS hrv_days"
    using out by (simp add: build_robust_baseline_14)
  have len: "7 < length out"
    by (simp add: eq length_fold_baseline length_hrv_days)
  have cell: "cells (out ! 7) (''hrv'' @ ''_mad'') = Some 2"
    unfolding eq by (rule hrv_days_baseline)
  have "(0.000001::real) \<le> 2"
    using floor len hrv_in_METRICS cell by blast
  with out len hrv_in_METRICS cell show ?thesis by blast
qed

theorem baseline_no_lookahead_witness:
  "(5::int) \<le> 14 \<and> 7 < length hrv_days \<and> 7 < length hrv_days_tampered
   \<and> take 7 hrv_days_tampered = take 7 hrv_days \<and> clash_free METRICS
   \<and> ''hrv'' \<in> set METRICS
   \<and> cells (hrv_days ! 7) ''hrv'' = Some 9 \<and> cells (hrv_days_tampered ! 7) ''hrv'' = Some 1000
   \<and> (\<exists>out out'. build_robust_baseline METRICS hrv_days 14 = Inr out
           \<and> build_robust_baseline METRICS hrv_days_tampered 14 = Inr out'
           \<and> cells (out' ! 7) (''hrv'' @ ''_median'') = cells (out ! 7) (''hrv'' @ ''_median'')
           \<and> cells (out' ! 7) (''hrv'' @ ''_mad'') = cells (out ! 7) (''hrv'' @ ''_mad'')
           \<and> cells (out ! 7) (''hrv'' @ ''_median'') = Some 4
           \<and> cells (out ! 7) (''hrv'' @ ''_mad'') = Some 2)"
proof -
  have h1: "(5::int) \<le> 14" by simp
  have h2: "7 < length hrv_days" and h3: "7 < length hrv_days_tampered"
    by (simp_all add: length_hrv_days)
  have vals: "cells (hrv_days ! 7) ''hrv'' = Some 9"
    "cells (hrv_days_tampered ! 7) ''hrv'' = Some 1000"
    by (simp_all add: hrv_days_def hrv_days_tampered_def at_set_def)
  from baseline_no_lookahead
    [OF h1 h2 h3 take_hrv_days_tampered clash_free_METRICS hrv_in_METRICS]
  obtain out out' where o: "build_robust_baseline METRICS hrv_days 14 = Inr out"
    "build_robust_baseline METRICS hrv_days_tampered 14 = Inr out'"
    "cells (out' ! 7) (''hrv'' @ ''_median'') = cells (out ! 7) (''hrv'' @ ''_median'')"
    "cells (out' ! 7) (''hrv'' @ ''_mad'') = cells (out ! 7) (''hrv'' @ ''_mad'')"
    by blast
  have eq: "out = fold (baseline_step 14 7) METRICS hrv_days"
    using o(1) by (simp add: build_robust_baseline_14)
  have "cells (out ! 7) (''hrv'' @ ''_median'') = Some 4"
    "cells (out ! 7) (''hrv'' @ ''_mad'') = Some 2"
    unfolding eq by (rule hrv_days_baseline)+
  with o h1 h2 h3 take_hrv_days_tampered clash_free_METRICS hrv_in_METRICS vals
  show ?thesis by blast
qed

section \<open>Properties of the trust scores\<close>

lemma snd_fold_trust_step:
  "snd (fold (trust_step pw df dfb idx) ms st)
     = snd st @ map (trust_entry_of pw df (dfb ! idx)) ms"
  by (induction ms arbitrary: st)
     (simp_all add: trust_step_def trust_entry_of_def split_beta Let_def)

lemma snd_fold_trust_rows:
  "snd (fold (\<lambda>idx st. fold (trust_step pw df dfb idx) ms st) idxs st)
     = snd st @ concat (map (\<lambda>idx. map (trust_entry_of pw df (dfb ! idx)) ms) idxs)"
  by (induction idxs arbitrary: st) (simp_all add: snd_fold_trust_step)

lemma trust_entries_eq:
  "\<exists>out. compute_trust_scores pw df
      = Inr (out, concat (map (\<lambda>row. map (trust_entry_of pw df row) METRICS)
                        (fold (baseline_step 14 7) METRICS df)))"
proof -
  let ?dfb = "fold (baseline_step 14 7) METRICS df"
  let ?res = "fold (\<lambda>idx st. fold (trust_step pw df ?dfb idx) METRICS st)
                [0..<length ?dfb] (?dfb, [])"
  have "map (\<lambda>idx. map (trust_entry_of pw df (?dfb ! idx)) METRICS) [0..<length ?dfb]
          = map (\<lambda>row. map (trust_entry_of pw df row) METRICS) ?dfb"
    by (rule nth_equalityI) simp_all
  then have "snd ?res = concat (map (\<lambda>row. map (trust_entry_of pw df row) METRICS) ?dfb)"
    by (simp add: snd_fold_trust_rows)
  moreover have "compute_trust_scores pw df = Inr ?res"
    by (simp add: compute_trust_scores_def build_robust_baseline_14)
  ultimately show ?thesis by (metis prod.collapse)
qed

lemma nth_concat_map_fixed:
  "(\<And>x. length (f x) = k) \<Longrightarrow> i < length xs \<Longrightarrow> j < k \<Longrightarrow>
   concat (map f xs) ! (i * k + j) = f (xs ! i) ! j"
proof (induction xs arbitrary: i)
  case Nil
  then show ?case by simp
next
  case (Cons x xs)
  show ?case
  proof (cases i)
    case 0
    then show ?thesis using Cons.prems by (simp add: nth_append)
  next
    case (Suc i')
    then have "concat (map f (x # xs)) ! (i * k + j) = concat (map f xs) ! (i' * k + j)"
      using Cons.prems(1) by (simp add: nth_append)
    then show ?thesis using Cons.IH [of i'] Cons.prems Suc by simp
  qed
qed

lemma length_concat_map_fixed:
  "(\<And>x. length (f x) = k) \<Longrightarrow> length (concat (map f xs)) = length xs * k"
  by (induction xs) simp_all

text \<open>The clamp \<open>max(0.0, 1.0 - min(y, 1.0))\<close> under Python's \<open>min\<close> and \<open>max\<close>.\<close>

lemma unit_clamp_value:
  "py_max (Some 0) (fsub (Some 1) (py_min y (Some 1)))
     = (case y of None \<Rightarrow> Some 0 | Some u \<Rightarrow> Some (max 0 (1 - min u 1)))"
  by (cases y) (auto simp: py_max_def py_min_def fsub_def flt_def)

lemma unit_clamp_range:
  assumes "\<And>u. y = Some u \<Longrightarrow> 0 \<le> u"
  shows "\<exists>s. py_max (Some 0) (fsub (Some 1) (py_min y (Some 1))) = Some s \<and> 0 \<le> s \<and> s \<le> 1"
  using assms by (cases y) (auto simp: unit_clamp_value)

lemma dist_score_range: "\<exists>s. dist_score row m = Some s \<and> 0 \<le> s \<and> s \<le> 1"
  unfolding dist_score_def Let_def
  by (rule unit_clamp_range) (auto simp: fdiv_def fabs_def split: option.splits)

lemma mad_pos: "0 < mad series"
  using mad_ge_eps [of series] by simp

lemma res_score_value:
  "res_score pw df row m =
     (case fabs (fsub (cells row m) (predicted_value pw row m)) of
        None \<Rightarrow> Some 0
      | Some residual \<Rightarrow>
          Some (max 0 (1 - min (residual / (3 * mad (map Some (dropna (column df m))))) 1)))"
  by (simp add: res_score_def Let_def unit_clamp_value fdiv_def fmul_def split: option.splits)

lemma res_score_range: "\<exists>s. res_score pw df row m = Some s \<and> 0 \<le> s \<and> s \<le> 1"
  unfolding res_score_def Let_def
proof (rule unit_clamp_range)
  fix u
  assume "fdiv (fabs (fsub (cells row m) (predicted_value pw row m)))
            (fmul (Some 3) (Some (mad (map Some (dropna (column df m)))))) = Some u"
  then show "0 \<le> u"
    using mad_pos [of "map Some (dropna (column df m))"]
    by (auto simp: fdiv_def fmul_def fabs_def split: option.splits)
qed

lemma trust_cell_range:
  "\<exists>s. fst (trust_cell pw df row m) = Some s \<and> 0 \<le> s \<and> s \<le> 1"
proof (cases "isna (cells row m)")
  case True
  then show ?thesis by (simp add: trust_cell_def)
next
  case False
  obtain a where a: "dist_score row m = Some a" "0 \<le> a" "a \<le> 1"
    using dist_score_range by blast
  obtain b where b: "res_score pw df row m = Some b" "0 \<le> b" "b \<le> 1"
    using res_score_range by blast
  have "0 \<le> a * b" "a * b \<le> 1"
    using a b by (simp_all add: mult_le_one)
  then show ?thesis using False a b by (simp add: trust_cell_def Let_def fmul_def)
qed

text \<open>
  C1. For every series and every value of the predictor weights (NaN included),
  \<open>compute_trust_scores\<close> returns, and every entry of its flat list has a score that
  is a number in the closed interval \<open>[0, 1]\<close>.
\<close>

theorem trust_scores_in_unit_interval:
  "\<exists>out entries. compute_trust_scores predictor_weights df = Inr (out, entries)
     \<and> (\<forall>e\<in>set entries. \<exists>s. score e = Some s \<and> 0 \<le> s \<and> s \<le> 1)"
proof -
  obtain out where "compute_trust_scores predictor_weights df
      = Inr (out, concat (map (\<lambda>row. map (trust_entry_of predictor_weights df row) METRICS)
                        (fold (baseline_step 14 7) METRICS df)))"
    using trust_entries_eq by blast
  moreover have "\<exists>s. score (trust_entry_of predictor_weights df row m) = Some s \<and> 0 \<le> s \<and> s \<le> 1"
    for row m
    using trust_cell_range [of predictor_weights df row m] by (simp add: trust_entry_of_def)
  ultimately show ?thesis by auto
qed


lemma length_METRICS: "length METRICS = 6"
  by (simp add: METRICS_def)

lemma date_baseline_row:
  "d < length df \<Longrightarrow> date (fold (baseline_step w p) ms df ! d) = date (df ! d)"
  using dates_fold_baseline [of w p ms df]
  by (metis length_fold_baseline nth_map)

lemma trust_entry_nth:
  assumes "d < length df" and "j < length METRICS"
  shows "\<exists>out entries. compute_trust_scores pw df = Inr (out, entries)
     \<and> length entries = length df * length METRICS
     \<and> entries ! (d * length METRICS + j)
         = trust_entry_of pw df (fold (baseline_step 14 7) METRICS df ! d) (METRICS ! j)"
proof -
  let ?dfb = "fold (baseline_step 14 7) METRICS df"
  let ?f = "\<lambda>row. map (trust_entry_of pw df row) METRICS"
  obtain out where out: "compute_trust_scores pw df = Inr (out, concat (map ?f ?dfb))"
    using trust_entries_eq by blast
  have len: "length (?f row) = length METRICS" for row by simp
  have "concat (map ?f ?dfb) ! (d * length METRICS + j) = ?f (?dfb ! d) ! j"
    using assms by (intro nth_concat_map_fixed len) (simp_all add: length_fold_baseline)
  moreover have "length (concat (map ?f ?dfb)) = length df * length METRICS"
    using length_concat_map_fixed [of ?f "length METRICS" ?dfb] 
    by (simp add: length_fold_baseline)
  ultimately show ?thesis using out assms(2) by simp
qed

text \<open>
  C2. When the value of metric \<open>METRICS ! j\<close> is missing on day \<open>d\<close>, the entry for
  that metric and day (at position \<open>d * |METRICS| + j\<close> of the flat list) has score
  exactly 0 and drivers \<open>["missing"]\<close>, whatever the baseline and the predictor
  weights are: neither of the two other factors enters it.
\<close>

theorem missing_value_zero_trust:
  assumes "d < length df" and "j < length METRICS"
    and "cells (df ! d) (METRICS ! j) = None"
  shows "\<exists>out entries. compute_trust_scores predictor_weights df = Inr (out, entries)
     \<and> length entries = length df * length METRICS
     \<and> entries ! (d * length METRICS + j)
         = \<lparr>metric = METRICS ! j, entry_date = date (df ! d), score = Some 0,
            drivers = [''missing'']\<rparr>"
proof -
  let ?row = "fold (baseline_step 14 7) METRICS df ! d"
  have "cells ?row (METRICS ! j) = None"
    using assms by (simp add: baseline_metric_cell clash_free_METRICS)
  then have "trust_entry_of predictor_weights df ?row (METRICS ! j)
      = \<lparr>metric = METRICS ! j, entry_date = date (df ! d), score = Some 0,
         drivers = [''missing'']\<rparr>"
    using assms(1) by (simp add: trust_entry_of_def trust_cell_def isna_def date_baseline_row)
  then show ?thesis
    using trust_entry_nth [OF assms(1,2), of predictor_weights] by simp
qed

lemma predicted_value_cong:
  assumes "\<And>k. k \<in> set METRICS \<Longrightarrow> cells r k = cells r' k"
  shows "predicted_value pw r m = predicted_value pw r' m"
proof -
  have eq: "map (\<lambda>other. if notna (cells r other) then cells r other else Some 0)
          (filter (\<lambda>other. other \<noteq> m) METRICS)
      = map (\<lambda>other. if notna (cells r' other) then cells r' other else Some 0)
          (filter (\<lambda>other. other \<noteq> m) METRICS)"
    by (rule map_cong) (simp_all add: assms)
  show ?thesis by (simp only: predicted_value_def Let_def eq)
qed

lemma res_score_cong:
  assumes "\<And>k. k \<in> set METRICS \<Longrightarrow> cells r k = cells r' k" and "m \<in> set METRICS"
  shows "res_score pw df r m = res_score pw df r' m"
  using predicted_value_cong [of r r' pw m] assms by (simp add: res_score_def)

lemma labels_differ:
  "cross_signal_deviation \<noteq> distribution_shift"
  "cross_signal_deviation \<noteq> ''cross-signal deviation''"
  by (simp_all add: cross_signal_deviation_def distribution_shift_def)

lemma cross_label_iff:
  "cells row m \<noteq> None \<Longrightarrow>
   cross_signal_deviation \<in> set (snd (trust_cell pw df row m))
     \<longleftrightarrow> flt (res_score pw df row m) (Some 0.6)"
  using labels_differ(1) by (auto simp: trust_cell_def Let_def isna_def)

text \<open>
  C8, amended. For a value that is present, the drivers of its entry contain the
  label the source appends, \<open>cross_signal_deviation\<close> (spelled with U+2011, not with
  an ASCII hyphen), exactly when \<open>res_score < 0.6\<close>; \<open>res_score\<close> is
  \<open>max(0, 1 - min(residual / (3 * overall_mad), 1))\<close> with \<open>overall_mad\<close> the MAD of
  the metric's whole column with NaN dropped, and 0 when the residual is NaN.
\<close>

theorem cross_signal_driver:
  assumes "d < length df" and "j < length METRICS"
    and "cells (df ! d) (METRICS ! j) \<noteq> None"
  shows "\<exists>out entries. compute_trust_scores predictor_weights df = Inr (out, entries)
     \<and> (cross_signal_deviation \<in> set (drivers (entries ! (d * length METRICS + j)))
          \<longleftrightarrow> flt (res_score predictor_weights df (df ! d) (METRICS ! j)) (Some 0.6))
     \<and> res_score predictor_weights df (df ! d) (METRICS ! j)
         = (case fabs (fsub (cells (df ! d) (METRICS ! j))
                        (predicted_value predictor_weights (df ! d) (METRICS ! j))) of
              None \<Rightarrow> Some 0
            | Some residual \<Rightarrow>
                Some (max 0 (1 - min (residual
                   / (3 * mad (map Some (dropna (column df (METRICS ! j)))))) 1)))"
proof -
  let ?row = "fold (baseline_step 14 7) METRICS df ! d"
  let ?m = "METRICS ! j"
  have m: "?m \<in> set METRICS" using assms(2) by simp
  have same: "cells ?row k = cells (df ! d) k" if "k \<in> set METRICS" for k
    using that assms(1) by (simp add: baseline_metric_cell clash_free_METRICS)
  have r: "res_score predictor_weights df ?row ?m = res_score predictor_weights df (df ! d) ?m"
    by (rule res_score_cong [OF same m])
  have "cells ?row ?m \<noteq> None" using same [OF m] assms(3) by simp
  then have "cross_signal_deviation \<in> set (drivers (trust_entry_of predictor_weights df ?row ?m))
      \<longleftrightarrow> flt (res_score predictor_weights df (df ! d) ?m) (Some 0.6)"
    using cross_label_iff [of ?row ?m predictor_weights df] r
    by (simp add: trust_entry_of_def)
  then show ?thesis
    using trust_entry_nth [OF assms(1,2), of predictor_weights] res_score_value by auto
qed


lemma one_day_facts:
  "0 < length one_day" "0 < length METRICS" "1 < length METRICS"
  "cells (one_day ! 0) (METRICS ! 0) \<noteq> None" "cells (one_day ! 0) (METRICS ! 1) = None"
  by (simp_all add: one_day_def METRICS_def)

lemma one_day_res_score: "res_score zero_weights one_day (one_day ! 0) ''sleep_hours'' = Some 0"
  by (simp add: res_score_value predicted_value_def zero_weights_def one_day_def METRICS_def
      notna_def fmul_def fadd_def fsub_def fabs_def column_def dropna_def mad_def
      series_median_def np_median_def median_of_def flt_def Let_def)

theorem trust_scores_in_unit_interval_witness:
  "\<exists>out entries. compute_trust_scores zero_weights one_day = Inr (out, entries)
     \<and> entries ! 0 \<in> set entries
     \<and> (\<exists>s. score (entries ! 0) = Some s \<and> 0 \<le> s \<and> s \<le> 1)"
proof -
  from trust_scores_in_unit_interval [of zero_weights one_day]
  obtain out entries where c: "compute_trust_scores zero_weights one_day = Inr (out, entries)"
    and r: "\<forall>e\<in>set entries. \<exists>s. score e = Some s \<and> 0 \<le> s \<and> s \<le> 1"
    by blast
  have "length entries = length one_day * length METRICS"
    using trust_entry_nth [OF one_day_facts(1,2), of zero_weights] c by auto
  then have "entries ! 0 \<in> set entries"
    by (simp add: one_day_def length_METRICS)
  with c r show ?thesis by blast
qed

theorem missing_value_zero_trust_witness:
  "0 < length one_day \<and> 1 < length METRICS \<and> cells (one_day ! 0) (METRICS ! 1) = None
   \<and> (\<exists>out entries. compute_trust_scores zero_weights one_day = Inr (out, entries)
        \<and> length entries = 6
        \<and> entries ! 1 = \<lparr>metric = ''resting_hr'', entry_date = ''2024-01-01'', score = Some 0,
                          drivers = [''missing'']\<rparr>)"
proof -
  from missing_value_zero_trust [OF one_day_facts(1,3,5), of zero_weights]
  obtain out entries where c: "compute_trust_scores zero_weights one_day = Inr (out, entries)"
    and len: "length entries = length one_day * length METRICS"
    and e: "entries ! (0 * length METRICS + 1)
         = \<lparr>metric = METRICS ! 1, entry_date = date (one_day ! 0), score = Some 0,
            drivers = [''missing'']\<rparr>"
    by blast
  have "length entries = 6" using len by (simp add: one_day_def length_METRICS)
  moreover have "entries ! 1 = \<lparr>metric = ''resting_hr'', entry_date = ''2024-01-01'',
      score = Some 0, drivers = [''missing'']\<rparr>"
    using e by (simp add: one_day_def METRICS_def)
  ultimately show ?thesis using c one_day_facts by blast
qed

theorem cross_signal_driver_witness:
  "0 < length one_day \<and> 0 < length METRICS \<and> cells (one_day ! 0) (METRICS ! 0) \<noteq> None
   \<and> (\<exists>out entries. compute_trust_scores zero_weights one_day = Inr (out, entries)
        \<and> cross_signal_deviation \<in> set (drivers (entries ! 0))
        \<and> flt (res_score zero_weights one_day (one_day ! 0) ''sleep_hours'') (Some 0.6))"
proof -
  have m: "METRICS ! 0 = ''sleep_hours''" by (simp add: METRICS_def)
  have "flt (res_score zero_weights one_day (one_day ! 0) ''sleep_hours'') (Some 0.6)"
    by (simp add: one_day_res_score flt_def)
  then show ?thesis
    using cross_signal_driver [OF one_day_facts(1,2,4), of zero_weights] one_day_facts m
    by auto
qed

text \<open>
  C8 as stated fails: on a one-day series with \<open>sleep_hours = 10\<close> and zero weights,
  \<open>res_score\<close> is 0, below 0.6, and the drivers do not contain the ASCII-hyphen
  string \<open>cross-signal deviation\<close>.
\<close>

theorem cross_signal_ascii_counterexample:
  "\<not> (''cross-signal deviation''
         \<in> set (drivers (hd (snd (projr (compute_trust_scores zero_weights one_day)))))
       \<longleftrightarrow> flt (res_score zero_weights one_day (one_day ! 0) ''sleep_hours'') (Some 0.6))"
proof -
  let ?row = "fold (baseline_step 14 7) METRICS one_day ! 0"
  obtain out entries where c: "compute_trust_scores zero_weights one_day = Inr (out, entries)"
    and len: "length entries = length one_day * length METRICS"
    and e: "entries ! (0 * length METRICS + 0)
         = trust_entry_of zero_weights one_day ?row (METRICS ! 0)"
    using trust_entry_nth [OF one_day_facts(1,2), of zero_weights] by blast
  have ne: "entries \<noteq> []" using len by (auto simp: one_day_def length_METRICS)
  have hd: "hd entries = trust_entry_of zero_weights one_day ?row ''sleep_hours''"
    using e ne by (simp add: hd_conv_nth METRICS_def)
  have "set (snd (trust_cell zero_weights one_day ?row ''sleep_hours''))
          \<subseteq> {distribution_shift, cross_signal_deviation, ''missing''}"
    by (auto simp: trust_cell_def Let_def)
  moreover have "''cross-signal deviation''
      \<notin> {distribution_shift, cross_signal_deviation, ''missing''}"
    by (simp add: distribution_shift_def cross_signal_deviation_def)
  ultimately have "''cross-signal deviation'' \<notin> set (drivers (hd entries))"
    unfolding hd by (auto simp: trust_entry_of_def)
  moreover have "flt (res_score zero_weights one_day (one_day ! 0) ''sleep_hours'') (Some 0.6)"
    by (simp add: one_day_res_score flt_def)
  ultimately show ?thesis using c by simp
qed

section \<open>Properties of the anomaly score\<close>

lemma snd_fold_anomaly_step:
  "snd (fold (anomaly_step row) ms st)
     = snd st @ map (\<lambda>m. \<bar>spec_robust_z row m\<bar>) (filter (spec_included row) ms)"
  by (induction ms arbitrary: st)
     (auto simp: anomaly_step_def spec_included_def spec_robust_z_def isna_def Let_def split_beta)

lemma np_max_Max:
  fixes xs :: "real list"
  assumes "xs \<noteq> []"
  shows "np_max xs = Max (set xs)"
proof (cases xs)
  case Nil
  then show ?thesis using assms by simp
next
  case (Cons a list)
  then show ?thesis using Max.set_eq_fold [of a list] by (simp add: np_max_def)
qed

lemma anomaly_row_score:
  "anomaly_score (anomaly_row fmt row)
     = spec_daily_score (map (\<lambda>m. \<bar>spec_robust_z row m\<bar>) (filter (spec_included row) METRICS))"
  using np_max_Max [of "map (\<lambda>m. \<bar>spec_robust_z row m\<bar>) (filter (spec_included row) METRICS)"]
  by (simp add: anomaly_row_def split_beta Let_def snd_fold_anomaly_step spec_daily_score_def
      np_mean_def)

lemma anomaly_row_flag:
  "is_anomaly (anomaly_row fmt row) \<longleftrightarrow> 1.5 \<le> anomaly_score (anomaly_row fmt row)"
  by (simp add: anomaly_row_def split_beta Let_def)

text \<open>
  C6. \<open>compute_anomalies\<close> returns one result per day; the \<open>|z|\<close> values of a day are
  those of the metrics whose value, rolling median and rolling MAD are all present in
  the baseline row (the others are left out, not replaced); the day's score is
  \<open>mean(|z|) + 0.25 * max(|z|)\<close> over them, 0 when there is none; and \<open>is_anomaly\<close>
  holds exactly when the score is at least 1.5.
\<close>

theorem anomaly_score_formula:
  "\<exists>df_base results. build_robust_baseline METRICS df 14 = Inr df_base
     \<and> compute_anomalies fmt df = Inr results
     \<and> length df_base = length df \<and> length results = length df
     \<and> (\<forall>d<length df.
          anomaly_score (results ! d)
            = spec_daily_score (map (\<lambda>m. \<bar>spec_robust_z (df_base ! d) m\<bar>)
                             (filter (spec_included (df_base ! d)) METRICS))
          \<and> (is_anomaly (results ! d) \<longleftrightarrow> 1.5 \<le> anomaly_score (results ! d)))"
  by (simp add: compute_anomalies_def build_robust_baseline_14 length_fold_baseline
      anomaly_row_score anomaly_row_flag)


lemma hrv_days_row7:
  "filter (spec_included (fold (baseline_step 14 7) METRICS hrv_days ! 7)) METRICS = [''hrv'']"
  "spec_robust_z (fold (baseline_step 14 7) METRICS hrv_days ! 7) ''hrv'' = 12500 / 7413"
proof -
  define B where "B = fold (baseline_step 14 7) METRICS hrv_days ! 7"
  have same: "cells B m = cells (hrv_days ! 7) m" if "m \<in> set METRICS" for m
    unfolding B_def using that
    by (simp add: baseline_metric_cell clash_free_METRICS length_hrv_days)
  have v: "cells B ''hrv'' = Some 9" "cells B ''sleep_hours'' = None"
    "cells B ''resting_hr'' = None" "cells B ''steps'' = None"
    "cells B ''calories'' = None" "cells B ''weight'' = None"
    by (simp_all add: same METRICS_def) (simp_all add: hrv_days_def)
  have b: "cells B (''hrv'' @ ''_median'') = Some 4" "cells B (''hrv'' @ ''_mad'') = Some 2"
    unfolding B_def by (rule hrv_days_baseline)+
  have "filter (spec_included B) METRICS = [''hrv'']"
    using v b by (simp add: METRICS_def spec_included_def)
  moreover have "spec_robust_z B ''hrv'' = 12500 / 7413"
    using v b by (simp add: spec_robust_z_def)
  ultimately show
    "filter (spec_included (fold (baseline_step 14 7) METRICS hrv_days ! 7)) METRICS = [''hrv'']"
    "spec_robust_z (fold (baseline_step 14 7) METRICS hrv_days ! 7) ''hrv'' = 12500 / 7413"
    by (simp_all add: B_def)
qed

theorem anomaly_score_formula_witness:
  "\<exists>df_base results. build_robust_baseline METRICS hrv_days 14 = Inr df_base
     \<and> compute_anomalies plain_fmt hrv_days = Inr results
     \<and> 7 < length hrv_days
     \<and> filter (spec_included (df_base ! 7)) METRICS = [''hrv'']
     \<and> anomaly_score (results ! 7) = 15625 / 7413
     \<and> is_anomaly (results ! 7)"
proof -
  from anomaly_score_formula [of hrv_days plain_fmt]
  obtain df_base results where b: "build_robust_baseline METRICS hrv_days 14 = Inr df_base"
    and c: "compute_anomalies plain_fmt hrv_days = Inr results"
    and f: "\<forall>d<length hrv_days.
          anomaly_score (results ! d)
            = spec_daily_score (map (\<lambda>m. \<bar>spec_robust_z (df_base ! d) m\<bar>)
                             (filter (spec_included (df_base ! d)) METRICS))
          \<and> (is_anomaly (results ! d) \<longleftrightarrow> 1.5 \<le> anomaly_score (results ! d))"
    by blast
  have eq: "df_base = fold (baseline_step 14 7) METRICS hrv_days"
    using b by (simp add: build_robust_baseline_14)
  have len: "7 < length hrv_days" by (simp add: length_hrv_days)
  have inc: "filter (spec_included (df_base ! 7)) METRICS = [''hrv'']"
    and z: "spec_robust_z (df_base ! 7) ''hrv'' = 12500 / 7413"
    unfolding eq by (rule hrv_days_row7)+
  have s: "anomaly_score (results ! 7) = 15625 / 7413"
    using f len inc z by (simp add: spec_daily_score_def)
  moreover have "is_anomaly (results ! 7)"
    using f len s by simp
  ultimately show ?thesis using b c len inc by blast
qed

section \<open>Properties of the attack simulation\<close>

lemma float_overflow_large: "2 ^ 63 < float_overflow"
proof -
  have "(2::real) ^ 1024 = 2 ^ 970 * 2 ^ 54"
    by (simp add: power_add [symmetric])
  then have "float_overflow = 2 ^ 970 * (2 ^ 54 - 1)"
    by (simp add: float_overflow_def algebra_simps)
  moreover have "(2::real) ^ 63 * 1 < 2 ^ 970 * (2 ^ 54 - 1)"
    by (intro mult_strict_mono power_strict_increasing) simp_all
  ultimately show ?thesis by simp
qed

lemma float_overflow_pos: "0 < float_overflow"
  using float_overflow_large by (simp add: less_trans [of 0 "2 ^ 63"])

lemma fold_attack_metric_zero:
  "fold (attack_metric mode 0 n_rows df perturbed) ms (Inr st) = Inr st"
  using float_overflow_pos
  by (induction ms) (simp_all add: attack_metric_def py_int_def split_beta not_le)

text \<open>
  C9. With mode \<open>missing\<close> and fraction 0 no index is drawn: the call returns a fresh
  copy that equals the input series, the input series is as it was, every other frame
  of the heap too, and the random source is untouched.
\<close>

theorem simulate_missing_zero_identity:
  assumes "df < length h"
  shows "\<exists>perturbed h'. simulate_attack h g df ''missing'' 0 = Inr (perturbed, h', g)
     \<and> h' ! perturbed = h ! df \<and> h' ! df = h ! df \<and> perturbed \<noteq> df
     \<and> take (length h) h' = h"
  using assms
  by (simp add: simulate_attack_def Let_def fold_attack_metric_zero nth_append)

theorem simulate_missing_zero_identity_witness:
  "0 < length [one_day]
   \<and> (\<exists>perturbed h'. simulate_attack [one_day] rng0 0 ''missing'' 0 = Inr (perturbed, h', rng0)
        \<and> h' ! perturbed = one_day \<and> h' ! 0 = one_day \<and> perturbed \<noteq> 0)"
proof -
  have h: "0 < length [one_day]" by simp
  from simulate_missing_zero_identity [OF h, of rng0] show ?thesis by auto
qed

lemma attack_cell_unknown:
  "mode \<notin> set known_modes \<Longrightarrow> attack_cell mode df perturbed m idx st = st"
  by (auto simp: attack_cell_def known_modes_def split_beta)

lemma fold_attack_cell_unknown:
  "mode \<notin> set known_modes \<Longrightarrow> fold (attack_cell mode df perturbed m) indices st = st"
  by (induction indices) (simp_all add: attack_cell_unknown)

lemma py_int_fraction_le:
  assumes "fraction \<le> 1"
  shows "py_int (real n_rows * fraction) \<le> int n_rows"
proof -
  have "real n_rows * fraction \<le> real n_rows"
    using assms by (simp add: mult_left_le)
  then have "\<lfloor>real n_rows * fraction\<rfloor> \<le> int n_rows" 
    by (simp add: floor_le_iff)
  moreover have "\<lceil>real n_rows * fraction\<rceil> \<le> int n_rows"
    using \<open>real n_rows * fraction \<le> real n_rows\<close> by (simp add: ceiling_le_iff)
  ultimately show ?thesis by (simp add: py_int_def)
qed

lemma product_finite:
  assumes "0 \<le> fraction" and "fraction \<le> 1" and "n_rows < 2 ^ 63"
  shows "\<bar>real n_rows * fraction\<bar> < float_overflow"
proof -
  have "real n_rows * fraction \<le> real n_rows"
    using assms(2) by (simp add: mult_left_le)
  moreover have "0 \<le> real n_rows * fraction"
    using assms(1) by simp
  moreover have "real n_rows < 2 ^ 63"
    using assms(3) by (metis of_nat_less_iff of_nat_numeral of_nat_power)
  ultimately show ?thesis
    using float_overflow_large by linarith
qed

lemma attack_metric_unknown:
  assumes "mode \<notin> set known_modes" and "0 \<le> fraction" and "fraction \<le> 1"
    and "n_rows < 2 ^ 63"
  shows "\<exists>g'. attack_metric mode fraction n_rows df perturbed m (Inr (h, g)) = Inr (h, g')"
  using assms(1) py_int_fraction_le [OF assms(3), of n_rows] product_finite [OF assms(2,3,4)]
  by (auto simp: attack_metric_def Let_def fold_attack_cell_unknown split_beta)

lemma fold_attack_metric_unknown:
  assumes "mode \<notin> set known_modes" and "0 \<le> fraction" and "fraction \<le> 1"
    and "n_rows < 2 ^ 63"
  shows "\<exists>g'. fold (attack_metric mode fraction n_rows df perturbed) ms (Inr (h, g)) = Inr (h, g')"
proof (induction ms arbitrary: g)
  case Nil
  then show ?case by simp
next
  case (Cons m ms)
  obtain g1 where "attack_metric mode fraction n_rows df perturbed m (Inr (h, g)) = Inr (h, g1)"
    using attack_metric_unknown [OF assms] by blast
  then show ?case using Cons.IH [of g1] by simp
qed

text \<open>
  C5, amended. For a series of fewer than \<open>2^63\<close> rows (the most a frame can hold), a
  fraction in \<open>[0, 1]\<close> and a mode string that is none of \<open>missing\<close>, \<open>delay\<close>,
  \<open>spoof\<close>, \<open>noise\<close>, \<open>simulate_attack\<close> does not reject the call: it raises no error
  and returns a copy equal to the input series, the input series being as it was (only
  the random source has advanced).
\<close>

theorem unknown_mode_silent_noop:
  assumes "mode \<notin> set [''missing'', ''delay'', ''spoof'', ''noise'']"
    and "df < length h" and "length (h ! df) < 2 ^ 63"
    and "0 \<le> fraction" and "fraction \<le> 1"
  shows "\<exists>perturbed h' g'. simulate_attack h g df mode fraction = Inr (perturbed, h', g')
           \<and> h' ! perturbed = h ! df \<and> h' ! df = h ! df \<and> perturbed \<noteq> df"
proof -
  have k: "mode \<notin> set known_modes" using assms(1) by (simp add: known_modes_def)
  obtain g' where "fold (attack_metric mode fraction (length (h ! df)) df (length h)) METRICS
      (Inr (h @ [h ! df], g)) = Inr (h @ [h ! df], g')"
    using fold_attack_metric_unknown [OF k assms(4,5,3)] by blast
  then have "simulate_attack h g df mode fraction = Inr (length h, h @ [h ! df], g')"
    by (simp add: simulate_attack_def Let_def)
  then show ?thesis
    using assms(2) by (auto simp: nth_append)
qed

theorem unknown_mode_silent_noop_witness:
  "''bogus'' \<notin> set [''missing'', ''delay'', ''spoof'', ''noise''] \<and> 0 < length [one_day]
   \<and> length ([one_day] ! 0) < 2 ^ 63 \<and> (0::real) \<le> 1 \<and> (1::real) \<le> 1
   \<and> (\<exists>perturbed h' g'. simulate_attack [one_day] rng0 0 ''bogus'' 1 = Inr (perturbed, h', g')
           \<and> h' ! perturbed = one_day \<and> h' ! 0 = one_day \<and> perturbed \<noteq> 0)"
proof -
  have a: "''bogus'' \<notin> set [''missing'', ''delay'', ''spoof'', ''noise'']" by simp
  have b: "0 < length [one_day]" by simp
  have c: "length ([one_day] ! 0) < 2 ^ 63" by (simp add: one_day_def)
  have d: "(0::real) \<le> 1" and e: "(1::real) \<le> 1" by simp_all
  from unknown_mode_silent_noop [OF a b c d e, of rng0] a b c show ?thesis by auto
qed

text \<open>
  C5 as stated fails: mode \<open>bogus\<close> with fraction 1 on a one-day series returns the
  series unchanged, with no error.
\<close>

theorem unknown_mode_not_rejected_counterexample:
  "simulate_attack [one_day] rng0 0 ''bogus'' 1 = Inr (1, [one_day, one_day], rng0\<lparr>pos := 6\<rparr>)"
proof -
  have "\<not> float_overflow \<le> 1"
    using float_overflow_large by simp
  then show ?thesis
    by (simp add: simulate_attack_def attack_metric_def attack_cell_def METRICS_def py_int_def
        one_day_def rng0_def Let_def)
qed

section \<open>Properties of the federated trust score\<close>

lemma np_dot_commute: "np_dot a b = np_dot b a"
proof (induction a arbitrary: b)
  case Nil
  then show ?case by (simp add: np_dot_def)
next
  case (Cons x a)
  then show ?case by (cases b) (simp_all add: np_dot_def)
qed

text \<open>
  C10. \<open>compute_federated_trust_score\<close> is symmetric in its two series.
\<close>

theorem federated_trust_symmetric:
  "compute_federated_trust_score metrics a b = compute_federated_trust_score metrics b a"
  by (simp add: compute_federated_trust_score_def Let_def np_dot_commute [of "compute_embedding metrics a"]
      mult.commute)

lemma sumsq_nonneg: "0 \<le> sumsq vec"
  by (induction vec) (simp_all add: sumsq_def)

lemma sumsq_pos: "\<exists>x\<in>set vec. x \<noteq> 0 \<Longrightarrow> 0 < sumsq vec"
proof (induction vec)
  case Nil
  then show ?case by simp
next
  case (Cons x vec)
  have "0 \<le> sumsq vec" by (rule sumsq_nonneg)
  show ?case
  proof (cases "x = 0")
    case True
    then show ?thesis using Cons by (simp add: sumsq_def)
  next
    case False
    then have "0 < x\<^sup>2" by simp
    then show ?thesis using \<open>0 \<le> sumsq vec\<close> by (simp add: sumsq_def add_pos_nonneg)
  qed
qed

lemma linalg_norm_square: "linalg_norm vec * linalg_norm vec = sumsq vec"
  using sumsq_nonneg [of vec] by (simp add: linalg_norm_def sumsq_def)

lemma linalg_norm_nonneg: "0 \<le> linalg_norm vec"
  using sumsq_nonneg [of vec] by (simp add: linalg_norm_def sumsq_def)

lemma np_dot_self: "np_dot vec vec = sumsq vec"
  by (induction vec) (simp_all add: np_dot_def sumsq_def power2_eq_square)

lemma np_dot_negated: "np_dot vec (map uminus vec) = - sumsq vec"
  by (induction vec) (simp_all add: np_dot_def sumsq_def power2_eq_square)

lemma linalg_norm_negated: "linalg_norm (map uminus vec) = linalg_norm vec"
  by (simp add: linalg_norm_def o_def)

lemma federated_same_value:
  assumes "compute_embedding ms global_df = compute_embedding ms user_df"
  shows "compute_federated_trust_score ms user_df global_df
     = (sumsq (compute_embedding ms user_df)
          / (sumsq (compute_embedding ms user_df) + 0.00000001) + 1) / 2"
proof -
  define q where "q = sumsq (compute_embedding ms user_df)"
  have q: "0 \<le> q" by (simp add: q_def sumsq_nonneg)
  then have "0 \<le> q / (q + 0.00000001)" "q / (q + 0.00000001) \<le> 1"
    by simp_all
  then have "max 0 (min ((q / (q + 0.00000001) + 1) / 2) 1) = (q / (q + 0.00000001) + 1) / 2"
    by simp
  then show ?thesis
    by (simp add: compute_federated_trust_score_def Let_def assms np_dot_self
        linalg_norm_square q_def)
qed

lemma federated_opposite_value:
  assumes "compute_embedding ms global_df = map uminus (compute_embedding ms user_df)"
  shows "compute_federated_trust_score ms user_df global_df
     = (1 - sumsq (compute_embedding ms user_df)
          / (sumsq (compute_embedding ms user_df) + 0.00000001)) / 2"
proof -
  define q where "q = sumsq (compute_embedding ms user_df)"
  have q: "0 \<le> q" by (simp add: q_def sumsq_nonneg)
  then have "0 \<le> q / (q + 0.00000001)" "q / (q + 0.00000001) \<le> 1"
    by simp_all
  then have "max 0 (min ((- (q / (q + 0.00000001)) + 1) / 2) 1) = (1 - q / (q + 0.00000001)) / 2"
    by simp
  then show ?thesis
    by (simp add: compute_federated_trust_score_def Let_def assms np_dot_negated
        linalg_norm_negated linalg_norm_square q_def)
qed


lemma sumsq_scaled: "sumsq (map (\<lambda>x. x / c) vec) = sumsq vec / c\<^sup>2"
  by (induction vec) (simp_all add: sumsq_def power_divide add_divide_distrib)

lemma sumsq_embedding:
  "sumsq (compute_embedding ms df)
     = (linalg_norm (metric_means ms df) / (linalg_norm (metric_means ms df) + 0.00000001))\<^sup>2"
  using linalg_norm_square [of "metric_means ms df"]
  by (simp add: compute_embedding_def Let_def sumsq_scaled power_divide power2_eq_square)

lemma sumsq_embedding_large:
  assumes "1 \<le> linalg_norm (metric_means ms df)"
  shows "1 / 2 < sumsq (compute_embedding ms df)"
proof -
  define n where "n = linalg_norm (metric_means ms df)"
  have n: "1 \<le> n" using assms by (simp add: n_def)
  define r where "r = n / (n + 0.00000001)"
  have "0.9 \<le> r"
    using n by (simp add: r_def field_simps)
  then have "0.9 * 0.9 \<le> r * r"
    by (intro mult_mono) linarith+
  then have "1 / 2 < r\<^sup>2"
    by (simp add: power2_eq_square)
  then show ?thesis
    by (simp add: sumsq_embedding n_def [symmetric] r_def)
qed

lemma federated_same_bounds:
  assumes "compute_embedding ms global_df = compute_embedding ms user_df"
    and "0 < sumsq (compute_embedding ms user_df)"
  shows "compute_federated_trust_score ms user_df global_df < 1"
    and "1 / 2 < sumsq (compute_embedding ms user_df)
           \<Longrightarrow> 1 - 0.00000001 < compute_federated_trust_score ms user_df global_df"
proof -
  define q where "q = sumsq (compute_embedding ms user_df)"
  define s where "s = q / (q + 0.00000001)"
  have v: "compute_federated_trust_score ms user_df global_df = (s + 1) / 2"
    unfolding s_def q_def by (rule federated_same_value [OF assms(1)])
  have q: "0 < q" using assms(2) by (simp add: q_def)
  then have s: "0 < s" "s < 1"
    by (simp_all add: s_def)
  then show "compute_federated_trust_score ms user_df global_df < 1"
    unfolding v by simp
  assume "1 / 2 < sumsq (compute_embedding ms user_df)"
  then have "1 / 2 < q" by (simp add: q_def)
  then have "(1 - 2 * 0.00000001) * (q + 0.00000001) < q" by simp
  then have "1 - 2 * 0.00000001 < s"
    using q by (simp add: s_def pos_less_divide_eq)
  then show "1 - 0.00000001 < compute_federated_trust_score ms user_df global_df"
    unfolding v by simp
qed

lemma federated_opposite_bounds:
  assumes "compute_embedding ms global_df = map uminus (compute_embedding ms user_df)"
    and "0 < sumsq (compute_embedding ms user_df)"
  shows "0 < compute_federated_trust_score ms user_df global_df"
    and "1 / 2 < sumsq (compute_embedding ms user_df)
           \<Longrightarrow> compute_federated_trust_score ms user_df global_df < 0.00000001"
proof -
  define q where "q = sumsq (compute_embedding ms user_df)"
  define s where "s = q / (q + 0.00000001)"
  have v: "compute_federated_trust_score ms user_df global_df = (1 - s) / 2"
    unfolding s_def q_def by (rule federated_opposite_value [OF assms(1)])
  have q: "0 < q" using assms(2) by (simp add: q_def)
  then have s: "0 < s" "s < 1"
    by (simp_all add: s_def)
  then show "0 < compute_federated_trust_score ms user_df global_df"
    unfolding v by simp
  assume "1 / 2 < sumsq (compute_embedding ms user_df)"
  then have "1 / 2 < q" by (simp add: q_def)
  then have "(1 - 2 * 0.00000001) * (q + 0.00000001) < q" by simp
  then have "1 - 2 * 0.00000001 < s"
    using q by (simp add: s_def pos_less_divide_eq)
  then show "compute_federated_trust_score ms user_df global_df < 0.00000001"
    unfolding v by simp
qed

text \<open>
  C7, amended. Because of the \<open>1e-8\<close> added to both denominators, identical non-zero
  embeddings give a score strictly below 1, never 1.0, and exactly opposite ones a
  score strictly above 0, never 0.0; when the vector of per-metric means has Euclidean
  norm at least 1 the first is above \<open>1 - 1e-8\<close> and the second below \<open>1e-8\<close>.
\<close>

theorem federated_trust_extremes:
  assumes "\<exists>x\<in>set (compute_embedding ms user_df). x \<noteq> 0"
  shows "(compute_embedding ms global_df = compute_embedding ms user_df \<longrightarrow>
            compute_federated_trust_score ms user_df global_df < 1
            \<and> (1 \<le> linalg_norm (metric_means ms user_df) \<longrightarrow>
                  1 - 0.00000001 < compute_federated_trust_score ms user_df global_df))
       \<and> (compute_embedding ms global_df = map uminus (compute_embedding ms user_df) \<longrightarrow>
            0 < compute_federated_trust_score ms user_df global_df
            \<and> (1 \<le> linalg_norm (metric_means ms user_df) \<longrightarrow>
                  compute_federated_trust_score ms user_df global_df < 0.00000001))"
proof -
  have q: "0 < sumsq (compute_embedding ms user_df)"
    using assms by (rule sumsq_pos)
  show ?thesis
    using federated_same_bounds [OF _ q, of global_df]
      federated_opposite_bounds [OF _ q, of global_df]
      sumsq_embedding_large [of ms user_df]
    by blast
qed

lemma one_day_means:
  "metric_means METRICS one_day = [10, 0, 0, 0, 0, 0]"
  "metric_means METRICS one_day_negated = [- 10, 0, 0, 0, 0, 0]"
  by (simp_all add: metric_means_def METRICS_def one_day_def one_day_negated_def column_def
      dropna_def)

lemma one_day_norm:
  "linalg_norm [10, 0, 0, 0, 0, 0] = 10" "linalg_norm [- 10, 0, 0, 0, 0, 0] = 10"
  by (simp_all add: linalg_norm_def real_sqrt_unique)

lemma one_day_embedding:
  "compute_embedding METRICS one_day = [10 / 10.00000001, 0, 0, 0, 0, 0]"
  "compute_embedding METRICS one_day_negated = map uminus (compute_embedding METRICS one_day)"
  by (simp_all add: compute_embedding_def one_day_means one_day_norm Let_def)

theorem federated_trust_extremes_witness:
  "(\<exists>x\<in>set (compute_embedding METRICS one_day). x \<noteq> 0)
   \<and> compute_embedding METRICS one_day = compute_embedding METRICS one_day
   \<and> compute_embedding METRICS one_day_negated = map uminus (compute_embedding METRICS one_day)
   \<and> 1 \<le> linalg_norm (metric_means METRICS one_day)
   \<and> 1 - 0.00000001 < compute_federated_trust_score METRICS one_day one_day
   \<and> compute_federated_trust_score METRICS one_day one_day < 1
   \<and> 0 < compute_federated_trust_score METRICS one_day one_day_negated
   \<and> compute_federated_trust_score METRICS one_day one_day_negated < 0.00000001"
proof -
  have nz: "\<exists>x\<in>set (compute_embedding METRICS one_day). x \<noteq> 0"
    by (simp add: one_day_embedding)
  have n: "1 \<le> linalg_norm (metric_means METRICS one_day)"
    by (simp add: one_day_means one_day_norm)
  from federated_trust_extremes [OF nz, of one_day] federated_trust_extremes [OF nz, of one_day_negated]
    nz n one_day_embedding(2)
  show ?thesis by blast
qed

text \<open>
  C7 as stated fails: a user with the single value \<open>sleep_hours = 10\<close> compared with
  itself does not score 1, and compared with the cohort holding \<open>-10\<close>, whose
  embedding is exactly opposite, does not score 0.
\<close>

theorem federated_exact_counterexample:
  "metric_means METRICS one_day = [10, 0, 0, 0, 0, 0]
   \<and> hd (compute_embedding METRICS one_day) \<noteq> 0
   \<and> compute_federated_trust_score METRICS one_day one_day \<noteq> 1
   \<and> compute_embedding METRICS one_day_negated = map uminus (compute_embedding METRICS one_day)
   \<and> compute_federated_trust_score METRICS one_day one_day_negated \<noteq> 0"
proof -
  have "\<exists>x\<in>set (compute_embedding METRICS one_day). x \<noteq> 0"
    by (simp add: one_day_embedding)
  then have q: "0 < sumsq (compute_embedding METRICS one_day)"
    by (rule sumsq_pos)
  have "compute_federated_trust_score METRICS one_day one_day < 1"
    by (rule federated_same_bounds(1) [OF refl q])
  moreover have "0 < compute_federated_trust_score METRICS one_day one_day_negated"
    by (rule federated_opposite_bounds(1) [OF one_day_embedding(2) q])
  moreover have "hd (compute_embedding METRICS one_day) \<noteq> 0"
    by (simp add: one_day_embedding)
  ultimately show ?thesis
    using one_day_means(1) one_day_embedding(2) by simp
qed

end
